theory Spec2Isabelle
  imports Main "HOL-Library.Word"
begin

section \<open>The DeepSeek-OCR model downloader (download_models.py)\<close>

text \<open>
  The script talks to two things outside itself: the ModelScope server and the local
  file system. Both are made explicit. The server is a parameter: a function from the
  number of requests the process has already issued and the request to what
  \<^verbatim>\<open>requests.get\<close> does with it. The file system, the requests issued, the files opened,
  the calls of \<^verbatim>\<open>time.sleep\<close> and the lines printed are the fields of a \<open>world\<close> record that
  every function takes and returns.

  Scope of the model. Files are a map from path to content; directories (and so
  \<^verbatim>\<open>mkdir\<close>) and operating-system errors of \<^verbatim>\<open>open\<close>, \<^verbatim>\<open>write\<close> and \<^verbatim>\<open>stat\<close> are left out,
  as is the \<^verbatim>\<open>tqdm\<close> progress bar. Exceptions come from the network calls
  (\<^verbatim>\<open>requests.get\<close>, \<^verbatim>\<open>iter_content\<close>, \<^verbatim>\<open>response.json\<close>), from \<^verbatim>\<open>int\<close> on the content-length
  header, from the two explicit \<^verbatim>\<open>raise\<close> statements, and from Python's typing of
  \<^verbatim>\<open>in\<close>, subscripts and \<^verbatim>\<open>/\<close>. An operator interrupt arrives while the process waits on
  the network.
\<close>

subsection \<open>Data\<close>

type_synonym byte = "8 word"
type_synonym path = string

text \<open>What \<^verbatim>\<open>response.json()\<close> can return. Floats behave like integers in this program
  (neither supports \<^verbatim>\<open>in\<close> or a string subscript), so numbers are integers. An object is
  the list of the key-value pairs of the parsed dict, whose keys are distinct.\<close>

datatype json =
    JNull
  | JBool bool
  | JNum int
  | JStr string
  | JArr "json list"
  | JObj "(string \<times> json) list"

text \<open>Exceptions. \<open>KeyboardInterrupt\<close> is the only one that does not derive from
  \<^verbatim>\<open>Exception\<close>, so it is the only one an \<^verbatim>\<open>except Exception\<close> clause lets through.\<close>

datatype exn =
    KeyboardInterrupt
  | RequestException
  | JSONDecodeError
  | TypeError
  | KeyError
  | ValueError
  | HTTPStatus int
  | SizeMismatch

definition is_Exception :: "exn \<Rightarrow> bool" where
  "is_Exception e = (e \<noteq> KeyboardInterrupt)"

text \<open>The content-length header: absent, a string \<^verbatim>\<open>int\<close> accepts, or one it rejects.\<close>

datatype length_header = NoLength | Length int | BadLength

text \<open>How \<^verbatim>\<open>iter_content\<close> ends after it has yielded its chunks.\<close>

datatype stream_ending = EndOfStream | StreamError | StreamInterrupt

record response =
  status_code :: int
  content_length :: length_header
  json_body :: "json option"
  chunks :: "byte list list"
  stream_end :: stream_ending

text \<open>A request: its URL and the \<^verbatim>\<open>Range: bytes=N-\<close> header, when there is one. The
  User-Agent header, the timeout and the stream flag are the same in every call.\<close>

record request =
  req_url :: string
  req_range :: "nat option"

datatype reply = Reply response | ConnectionError | Interrupt

type_synonym server = "nat \<Rightarrow> request \<Rightarrow> reply"

datatype mode = AB | WB

text \<open>The lines the script prints, one constructor for each \<^verbatim>\<open>print\<close> statement; the three
  hint lines 166 to 168 are one message, and \<open>MsgTraceback\<close> is \<^verbatim>\<open>traceback.print_exc()\<close>.\<close>

datatype msg =
    MsgListStatus int
  | MsgUseDefault
  | MsgListError exn
  | MsgAttemptFailed nat int exn
  | MsgWait nat
  | MsgFileFailed string
  | MsgRule
  | MsgTitle
  | MsgTarget
  | MsgListing
  | MsgFound nat
  | MsgSkip string
  | MsgDownloading string
  | MsgDone string
  | MsgSummary nat nat
  | MsgFailedHeader
  | MsgFailedItem string
  | MsgHints
  | MsgAllOk
  | MsgCancelled
  | MsgError exn
  | MsgTraceback

record world =
  files :: "path \<Rightarrow> byte list option"
  requests :: "request list"
  opened :: "(path \<times> mode) list"
  sleeps :: "nat list"
  printed :: "msg list"

subsection \<open>Primitive effects\<close>

definition say :: "msg list \<Rightarrow> world \<Rightarrow> world" where
  "say ms w = w\<lparr>printed := printed w @ ms\<rparr>"

definition sleep :: "nat \<Rightarrow> world \<Rightarrow> world" where
  "sleep n w = w\<lparr>sleeps := sleeps w @ [n]\<rparr>"

definition requests_get ::
  "server \<Rightarrow> string \<Rightarrow> nat option \<Rightarrow> world \<Rightarrow> (exn + response) \<times> world" where
  "requests_get srv u rng w =
     (let rq = \<lparr>req_url = u, req_range = rng\<rparr>;
          w' = w\<lparr>requests := requests w @ [rq]\<rparr>
      in case srv (length (requests w)) rq of
           Reply r \<Rightarrow> (Inr r, w')
         | ConnectionError \<Rightarrow> (Inl RequestException, w')
         | Interrupt \<Rightarrow> (Inl KeyboardInterrupt, w'))"

definition path_exists :: "world \<Rightarrow> path \<Rightarrow> bool" where
  "path_exists w p = (files w p \<noteq> None)"

text \<open>\<^verbatim>\<open>stat().st_size\<close>; the program calls it only on a file that exists.\<close>

definition st_size :: "world \<Rightarrow> path \<Rightarrow> nat" where
  "st_size w p = (case files w p of Some b \<Rightarrow> length b | None \<Rightarrow> 0)"

text \<open>\<^verbatim>\<open>open(destination, mode)\<close>: \<^verbatim>\<open>'wb'\<close> truncates or creates, \<^verbatim>\<open>'ab'\<close> keeps the content
  or creates.\<close>

definition open_file :: "path \<Rightarrow> mode \<Rightarrow> world \<Rightarrow> world" where
  "open_file p m w =
     (let w1 = w\<lparr>opened := opened w @ [(p, m)]\<rparr>
      in case m of
           WB \<Rightarrow> w1\<lparr>files := (files w1)(p \<mapsto> [])\<rparr>
         | AB \<Rightarrow> (case files w1 p of
                    None \<Rightarrow> w1\<lparr>files := (files w1)(p \<mapsto> [])\<rparr>
                  | Some b \<Rightarrow> w1))"

text \<open>The body of the streaming loop: empty chunks are skipped, the others appended.\<close>

fun write_chunks :: "byte list list \<Rightarrow> byte list \<Rightarrow> byte list" where
  "write_chunks [] f = f"
| "write_chunks (chunk # rest) f =
     write_chunks rest (if chunk \<noteq> [] then f @ chunk else f)"

definition write_all :: "path \<Rightarrow> byte list list \<Rightarrow> world \<Rightarrow> world" where
  "write_all p cs w =
     (case files w p of
        Some b \<Rightarrow> w\<lparr>files := (files w)(p \<mapsto> write_chunks cs b)\<rparr>
      | None \<Rightarrow> w)"

subsection \<open>Constants\<close>

definition MODELSCOPE_API :: string where
  "MODELSCOPE_API =
     ''https://www.modelscope.cn/api/v1/models/deepseek-ai/DeepSeek-OCR/repo/files''"

definition REQUIRED_FILES :: "json list" where
  "REQUIRED_FILES = map JStr
     [''config.json'', ''configuration.json'', ''preprocessor_config.json'',
      ''tokenizer_config.json'', ''tokenizer.json'', ''special_tokens_map.json'',
      ''vocab.json'', ''merges.txt'', ''model.safetensors'', ''pytorch_model.bin'']"

definition DOWNLOAD_URL :: string where
  "DOWNLOAD_URL =
     ''https://www.modelscope.cn/api/v1/models/deepseek-ai/DeepSeek-OCR/repo?Revision=master&FilePath=''"

definition models_dir :: path where
  "models_dir = ''models''"

subsection \<open>get_file_list\<close>

fun starts_with :: "string \<Rightarrow> string \<Rightarrow> bool" where
  "starts_with [] s = True"
| "starts_with (c # cs) [] = False"
| "starts_with (c # cs) (d # ds) = (c = d \<and> starts_with cs ds)"

fun is_substring :: "string \<Rightarrow> string \<Rightarrow> bool" where
  "is_substring sub [] = (sub = [])"
| "is_substring sub (c # cs) = (starts_with sub (c # cs) \<or> is_substring sub cs)"

text \<open>Python's \<^verbatim>\<open>k in x\<close> for a string \<open>k\<close>: key membership on a dict, element membership
  on a list, substring test on a string, TypeError on anything else.\<close>

fun py_in :: "string \<Rightarrow> json \<Rightarrow> exn + bool" where
  "py_in k (JObj kvs) = Inr (k \<in> set (map fst kvs))"
| "py_in k (JArr xs) = Inr (JStr k \<in> set xs)"
| "py_in k (JStr s) = Inr (is_substring k s)"
| "py_in k JNull = Inl TypeError"
| "py_in k (JBool b) = Inl TypeError"
| "py_in k (JNum n) = Inl TypeError"

text \<open>Python's \<^verbatim>\<open>x[k]\<close> for a string \<open>k\<close>: only a dict accepts it.\<close>

fun py_getitem :: "json \<Rightarrow> string \<Rightarrow> exn + json" where
  "py_getitem (JObj kvs) k = (case map_of kvs k of Some v \<Rightarrow> Inr v | None \<Rightarrow> Inl KeyError)"
| "py_getitem (JArr xs) k = Inl TypeError"
| "py_getitem (JStr s) k = Inl TypeError"
| "py_getitem JNull k = Inl TypeError"
| "py_getitem (JBool b) k = Inl TypeError"
| "py_getitem (JNum n) k = Inl TypeError"

text \<open>\<^verbatim>\<open>[item['Path'] for item in data['Data'] if 'Path' in item]\<close>\<close>

fun path_items :: "json list \<Rightarrow> exn + json list" where
  "path_items [] = Inr []"
| "path_items (item # rest) =
     (case py_in ''Path'' item of
        Inl e \<Rightarrow> Inl e
      | Inr has_path \<Rightarrow>
          if has_path then
            (case py_getitem item ''Path'' of
               Inl e \<Rightarrow> Inl e
             | Inr v \<Rightarrow> (case path_items rest of Inl e \<Rightarrow> Inl e | Inr vs \<Rightarrow> Inr (v # vs)))
          else path_items rest)"

text \<open>Lines 43 to 45: \<open>Inr (Some l)\<close> is the \<^verbatim>\<open>return\<close> of line 45, \<open>Inr None\<close> falls
  through to line 47.\<close>

definition remote_listing :: "response \<Rightarrow> exn + json list option" where
  "remote_listing response =
     (case json_body response of
        None \<Rightarrow> Inl JSONDecodeError
      | Some data \<Rightarrow>
          (case py_in ''Data'' data of
             Inl e \<Rightarrow> Inl e
           | Inr has_data \<Rightarrow>
               if has_data then
                 (case py_getitem data ''Data'' of
                    Inl e \<Rightarrow> Inl e
                  | Inr d \<Rightarrow>
                      (case d of
                         JArr items \<Rightarrow>
                           (case path_items items of Inl e \<Rightarrow> Inl e | Inr ps \<Rightarrow> Inr (Some ps))
                       | _ \<Rightarrow> Inr None))
               else Inr None))"

text \<open>The \<^verbatim>\<open>try\<close> block, lines 35 to 49.\<close>

definition get_file_list_try :: "server \<Rightarrow> world \<Rightarrow> (exn + json list) \<times> world" where
  "get_file_list_try srv w =
     (case requests_get srv MODELSCOPE_API None w of
        (Inl e, w1) \<Rightarrow> (Inl e, w1)
      | (Inr response, w1) \<Rightarrow>
          (case (if status_code response = 200 then remote_listing response else Inr None) of
             Inl e \<Rightarrow> (Inl e, w1)
           | Inr (Some l) \<Rightarrow> (Inr l, w1)
           | Inr None \<Rightarrow>
               (Inr REQUIRED_FILES,
                say [MsgListStatus (status_code response), MsgUseDefault] w1)))"

definition get_file_list :: "server \<Rightarrow> world \<Rightarrow> (exn + json list) \<times> world" where
  "get_file_list srv w =
     (case get_file_list_try srv w of
        (Inl e, w1) \<Rightarrow>
          if is_Exception e
          then (Inr REQUIRED_FILES, say [MsgListError e, MsgUseDefault] w1)
          else (Inl e, w1)
      | (Inr l, w1) \<Rightarrow> (Inr l, w1))"

text \<open>For comparison with what the comprehension returns: the values of the Path fields
  of the objects of a remote listing, in the listing's order.\<close>

definition listed_paths :: "json list \<Rightarrow> json list" where
  "listed_paths items =
     List.map_filter (\<lambda>item. case item of JObj obj \<Rightarrow> map_of obj ''Path'' | _ \<Rightarrow> None) items"

subsection \<open>download_file\<close>

text \<open>Line 87.\<close>

definition total_size :: "length_header \<Rightarrow> nat \<Rightarrow> exn + int" where
  "total_size h initial_pos =
     (case h of
        NoLength \<Rightarrow> Inr (0 + int initial_pos)
      | Length n \<Rightarrow> Inr (n + int initial_pos)
      | BadLength \<Rightarrow> Inl ValueError)"

text \<open>Lines 84 to 104, on the response that is current after line 82.\<close>

definition receive :: "response \<Rightarrow> path \<Rightarrow> nat \<Rightarrow> world \<Rightarrow> (exn + unit) \<times> world" where
  "receive response destination initial_pos w =
     (if status_code response \<noteq> 200 \<and> status_code response \<noteq> 206
      then (Inl (HTTPStatus (status_code response)), w)
      else
        case total_size (content_length response) initial_pos of
          Inl e \<Rightarrow> (Inl e, w)
        | Inr expected \<Rightarrow>
            (let md = (if initial_pos > 0 \<and> status_code response = 206 then AB else WB);
                 w1 = open_file destination md w;
                 w2 = write_all destination (chunks response) w1
             in case stream_end response of
                  StreamError \<Rightarrow> (Inl RequestException, w2)
                | StreamInterrupt \<Rightarrow> (Inl KeyboardInterrupt, w2)
                | EndOfStream \<Rightarrow>
                    if expected > 0 \<and> int (st_size w2 destination) \<noteq> expected
                    then (Inl SizeMismatch, w2)
                    else (Inr (), w2)))"

text \<open>The \<^verbatim>\<open>try\<close> block of one attempt, lines 76 to 104. It returns the value of
  \<^verbatim>\<open>initial_pos\<close> as well, which line 81 may have changed and which the next attempt reads.\<close>

definition attempt_body ::
  "server \<Rightarrow> string \<Rightarrow> path \<Rightarrow> nat option \<Rightarrow> nat \<Rightarrow> world \<Rightarrow> (exn + unit) \<times> nat \<times> world" where
  "attempt_body srv url destination resume_header initial_pos w =
     (case requests_get srv url resume_header w of
        (Inl e, w1) \<Rightarrow> (Inl e, initial_pos, w1)
      | (Inr response, w1) \<Rightarrow>
          if status_code response = 416 \<or> (status_code response = 200 \<and> initial_pos > 0)
          then
            (case requests_get srv url None w1 of
               (Inl e, w2) \<Rightarrow> (Inl e, 0, w2)
             | (Inr response2, w2) \<Rightarrow>
                 (case receive response2 destination 0 w2 of (r, w3) \<Rightarrow> (r, 0, w3)))
          else
            (case receive response destination initial_pos w1 of
               (r, w3) \<Rightarrow> (r, initial_pos, w3)))"

text \<open>\<^verbatim>\<open>destination.name\<close>\<close>

definition path_name :: "path \<Rightarrow> string" where
  "path_name p = rev (takeWhile (\<lambda>c. c \<noteq> CHR ''/'') (rev p))"

text \<open>The \<^verbatim>\<open>for attempt in range(max_retries)\<close> loop, lines 74 to 116, over the attempt
  indices still to run.\<close>

fun retry_loop ::
  "server \<Rightarrow> string \<Rightarrow> path \<Rightarrow> int \<Rightarrow> nat option \<Rightarrow> nat list \<Rightarrow> nat \<Rightarrow> world
     \<Rightarrow> (exn + bool) \<times> world" where
  "retry_loop srv url destination max_retries resume_header [] initial_pos w = (Inr False, w)"
| "retry_loop srv url destination max_retries resume_header (attempt # rest) initial_pos w =
     (case attempt_body srv url destination resume_header initial_pos w of
        (Inr u, ip, w1) \<Rightarrow> (Inr True, w1)
      | (Inl e, ip, w1) \<Rightarrow>
          if is_Exception e then
            (let w2 = say [MsgAttemptFailed (attempt + 1) max_retries e] w1
             in if int attempt < max_retries - 1
                then retry_loop srv url destination max_retries resume_header rest ip
                       (sleep (2 ^ attempt) (say [MsgWait (2 ^ attempt)] w2))
                else (Inr False, say [MsgFileFailed (path_name destination)] w2))
          else (Inl e, w1))"

text \<open>Lines 60 to 72 and the call of the loop. Line 61, which creates the parent
  directories of the destination before the \<^verbatim>\<open>try\<close>, has no counterpart: the model has no
  directories. It is a no-op whenever the destination exists, and cannot fail unless a
  component of the destination's parent path is a regular file, in which case the code
  raises FileExistsError or NotADirectoryError out of \<open>download_file\<close> (and the script exits
  with 1) where the model goes on to the first attempt. The same holds for line 123.\<close>

definition download_file ::
  "server \<Rightarrow> string \<Rightarrow> path \<Rightarrow> int \<Rightarrow> world \<Rightarrow> (exn + bool) \<times> world" where
  "download_file srv url destination max_retries w =
     (let (resume_header, initial_pos) =
            (if path_exists w destination
             then (Some (st_size w destination), st_size w destination)
             else (None, 0))
      in retry_loop srv url destination max_retries resume_header
           [0..<nat max_retries] initial_pos w)"

subsection \<open>download_models\<close>

text \<open>\<^verbatim>\<open>models_dir / filename\<close>: an absolute right operand replaces the left one. The file
  system of the model is a map from path strings to regular files, so the join is the one
  pathlib computes for a name that is a non-empty sequence of components other than
  \<^verbatim>\<open>.\<close> and \<^verbatim>\<open>..\<close>. Outside that range the model and the code differ: pathlib maps the empty
  name and \<^verbatim>\<open>.\<close> to the models directory itself (which exists, so the code skips it),
  drops \<^verbatim>\<open>.\<close> components and repeated slashes, and the operating system resolves \<^verbatim>\<open>..\<close>
  and links, so that two names can denote one file there and two different keys here.\<close>

definition join_path :: "path \<Rightarrow> string \<Rightarrow> path" where
  "join_path d name = (if starts_with ''/'' name then name else d @ ''/'' @ name)"

text \<open>The loop of lines 139 to 156. A file name that is not a string (the listing's
  Path field can hold any JSON value) makes \<^verbatim>\<open>models_dir / filename\<close> raise TypeError.\<close>

fun download_loop ::
  "server \<Rightarrow> json list \<Rightarrow> nat \<Rightarrow> string list \<Rightarrow> world
     \<Rightarrow> (exn + nat \<times> string list) \<times> world" where
  "download_loop srv [] success_count failed_files w = (Inr (success_count, failed_files), w)"
| "download_loop srv (filename # rest) success_count failed_files w =
     (case filename of
        JStr name \<Rightarrow>
          (let download_url = DOWNLOAD_URL @ name;
               destination = join_path models_dir name
           in if path_exists w destination
              then download_loop srv rest (success_count + 1) failed_files
                     (say [MsgSkip name] w)
              else
                (case download_file srv download_url destination 3
                        (say [MsgDownloading name] w) of
                   (Inl e, w1) \<Rightarrow> (Inl e, w1)
                 | (Inr ok, w1) \<Rightarrow>
                     if ok
                     then download_loop srv rest (success_count + 1) failed_files
                            (say [MsgDone name] w1)
                     else download_loop srv rest success_count (failed_files @ [name]) w1))
      | _ \<Rightarrow> (Inl TypeError, w))"

definition download_models :: "server \<Rightarrow> world \<Rightarrow> (exn + bool) \<times> world" where
  "download_models srv w =
     (case get_file_list srv (say [MsgRule, MsgTitle, MsgRule, MsgTarget, MsgListing] w) of
        (Inl e, w1) \<Rightarrow> (Inl e, w1)
      | (Inr file_list, w1) \<Rightarrow>
          (case download_loop srv file_list 0 [] (say [MsgFound (length file_list)] w1) of
             (Inl e, w2) \<Rightarrow> (Inl e, w2)
           | (Inr (success_count, failed_files), w2) \<Rightarrow>
               (let w3 = say [MsgRule, MsgSummary success_count (length file_list)] w2
                in if failed_files \<noteq> []
                   then (Inr False,
                         say ([MsgFailedHeader] @ map MsgFailedItem failed_files @ [MsgHints]) w3)
                   else (Inr True, say [MsgAllOk] w3))))"

text \<open>An entry of the file list whose destination exists.\<close>

definition present :: "world \<Rightarrow> json \<Rightarrow> bool" where
  "present w f = (case f of JStr name \<Rightarrow> path_exists w (join_path models_dir name) | _ \<Rightarrow> False)"

subsection \<open>The entry point\<close>

text \<open>Lines 175 to 186; the result is the argument of \<^verbatim>\<open>sys.exit\<close>.\<close>

definition main :: "server \<Rightarrow> world \<Rightarrow> int \<times> world" where
  "main srv w =
     (case download_models srv w of
        (Inr success, w1) \<Rightarrow> (if success then 0 else 1, w1)
      | (Inl e, w1) \<Rightarrow>
          if e = KeyboardInterrupt then (1, say [MsgCancelled] w1)
          else (1, say [MsgError e, MsgTraceback] w1))"

subsection \<open>Concrete servers and worlds\<close>

text \<open>The remote side of the scenarios used below: a listing of two files, a five-byte
  remote file, and a server that serves it whole or from the requested offset.\<close>

definition empty_world :: world where
  "empty_world = \<lparr>files = Map.empty, requests = [], opened = [], sleeps = [], printed = []\<rparr>"

definition demo_listing :: json where
  "demo_listing =
     JObj [(''Data'', JArr [JObj [(''Path'', JStr ''a.json'')], JObj [(''Path'', JStr ''b.bin'')]])]"

definition remote_file :: "byte list" where
  "remote_file = [1, 2, 3, 4, 5]"

definition file_response :: "nat option \<Rightarrow> response" where
  "file_response rng =
     (case rng of
        None \<Rightarrow> \<lparr>status_code = 200, content_length = Length 5, json_body = None,
                 chunks = [remote_file], stream_end = EndOfStream\<rparr>
      | Some k \<Rightarrow> \<lparr>status_code = 206, content_length = Length (5 - int k), json_body = None,
                   chunks = [drop k remote_file], stream_end = EndOfStream\<rparr>)"

definition listing_response :: response where
  "listing_response = \<lparr>status_code = 200, content_length = NoLength,
      json_body = Some demo_listing, chunks = [], stream_end = EndOfStream\<rparr>"

definition good_server :: server where
  "good_server n rq =
     (if req_url rq = MODELSCOPE_API then Reply listing_response
      else Reply (file_response (req_range rq)))"

text \<open>A server whose file transfers break after two bytes.\<close>

definition head_bytes :: "byte list" where
  "head_bytes = [1, 2]"

definition third_byte :: "byte list" where
  "third_byte = [3]"

definition broken_response :: response where
  "broken_response = \<lparr>status_code = 200, content_length = Length 5, json_body = None,
      chunks = [head_bytes], stream_end = StreamError\<rparr>"

definition breaking_server :: server where
  "breaking_server n rq =
     (if req_url rq = MODELSCOPE_API then Reply listing_response else Reply broken_response)"

text \<open>A response that carries no content-length header.\<close>

definition unsized_response :: response where
  "unsized_response = \<lparr>status_code = 200, content_length = NoLength, json_body = None,
      chunks = [remote_file], stream_end = EndOfStream\<rparr>"

text \<open>A server that never sends a content-length header (a chunked transfer), and a
  response whose body ends, without error, short of the length it declared.\<close>

definition unsized_server :: server where
  "unsized_server n rq =
     (case req_range rq of
        None \<Rightarrow> Reply unsized_response
      | Some k \<Rightarrow> Reply \<lparr>status_code = 206, content_length = NoLength, json_body = None,
                         chunks = [drop k remote_file], stream_end = EndOfStream\<rparr>)"

definition short_response :: response where
  "short_response = \<lparr>status_code = 200, content_length = Length 5, json_body = None,
      chunks = [head_bytes], stream_end = EndOfStream\<rparr>"

text \<open>A server that ignores the Range header and always sends the whole file.\<close>

definition rangeless_server :: server where
  "rangeless_server n rq = Reply (file_response None)"

text \<open>The operator presses Ctrl-C during the first request.\<close>

definition interrupting_server :: server where
  "interrupting_server n rq = Interrupt"

text \<open>A server whose first transfer sends one byte of the requested range and then
  breaks; every later request is served as by \<open>good_server\<close>.\<close>

definition flaky_server :: server where
  "flaky_server n rq =
     (if n = 0
      then Reply \<lparr>status_code = 206, content_length = Length 3, json_body = None,
                  chunks = [third_byte], stream_end = StreamError\<rparr>
      else good_server n rq)"

text \<open>A server that answers the first request with 416, drops the second, and serves
  every later request as \<open>good_server\<close> does.\<close>

definition recovering_server :: server where
  "recovering_server n rq =
     (if n = 0
      then Reply \<lparr>status_code = 416, content_length = NoLength, json_body = None,
                  chunks = [], stream_end = EndOfStream\<rparr>
      else if n = 1 then ConnectionError
      else good_server n rq)"

definition b_url :: string where
  "b_url = DOWNLOAD_URL @ ''b.bin''"

definition b_path :: path where
  "b_path = ''models/b.bin''"

text \<open>The first two bytes of \<open>b.bin\<close> are on disk.\<close>

definition partial_world :: world where
  "partial_world = empty_world\<lparr>files := [b_path \<mapsto> [1, 2]]\<rparr>"

text \<open>The listing's two names, and a world in which the first is already on disk.\<close>

definition a_path :: path where
  "a_path = ''models/a.json''"

definition a_present_world :: world where
  "a_present_world = empty_world\<lparr>files := [a_path \<mapsto> [7]]\<rparr>"

definition demo_files :: "json list" where
  "demo_files = [JStr ''a.json'', JStr ''b.bin'']"

section \<open>Properties\<close>

subsection \<open>Evaluation and frame lemmas\<close>

lemmas program_defs =
  main_def download_models_def get_file_list_def get_file_list_try_def remote_listing_def
  download_file_def attempt_body_def receive_def total_size_def
  requests_get_def say_def sleep_def open_file_def write_all_def st_size_def path_exists_def
  join_path_def path_name_def is_Exception_def models_dir_def MODELSCOPE_API_def
  DOWNLOAD_URL_def Let_def

lemmas scenario_defs =
  empty_world_def demo_listing_def remote_file_def file_response_def listing_response_def
  good_server_def broken_response_def breaking_server_def rangeless_server_def
  interrupting_server_def flaky_server_def recovering_server_def b_url_def b_path_def
  partial_world_def unsized_response_def head_bytes_def third_byte_def
  unsized_server_def short_response_def

lemma range3: "[0..<3] = [0, 1, 2]"
  by (simp add: upt_rec)

lemma write_chunks_concat: "write_chunks cs f = f @ concat cs"
  by (induction cs arbitrary: f) auto

lemma requests_get_world:
  "requests_get srv u rng w = (r, w') \<Longrightarrow>
     w' = w\<lparr>requests := requests w @ [\<lparr>req_url = u, req_range = rng\<rparr>]\<rparr>"
  by (auto simp: requests_get_def Let_def split: reply.splits)

lemma receive_quiet:
  "receive response dest ip w = (r, w') \<Longrightarrow>
     sleeps w' = sleeps w \<and> printed w' = printed w \<and> requests w' = requests w"
  by (auto simp: receive_def Let_def open_file_def write_all_def
           split: if_splits sum.splits stream_ending.splits mode.splits option.splits)

lemma attempt_body_quiet:
  "attempt_body srv url dest hdr ip w = (r, ip', w') \<Longrightarrow>
     sleeps w' = sleeps w \<and> printed w' = printed w"
  unfolding attempt_body_def
  by (auto split: prod.splits sum.splits if_splits
           dest!: requests_get_world receive_quiet)

subsection \<open>Backoff\<close>

text \<open>For any number of retries: a call that returns False after running attempts
  \<open>k\<close> to \<open>n - 1\<close> has slept \<open>2 ^ i\<close> seconds after each attempt \<open>i\<close> but the last.\<close>

lemma retry_loop_sleeps:
  "retry_loop srv url dest m hdr [k..<n] ip w = (Inr False, w') \<Longrightarrow> int n = m \<Longrightarrow> k < n \<Longrightarrow>
     sleeps w' = sleeps w @ map (\<lambda>i. 2 ^ i) [k..<n - 1]"
proof (induction "n - k" arbitrary: k ip w)
  case 0
  then show ?case by simp
next
  case (Suc d)
  from Suc.prems(3) have unroll: "[k..<n] = k # [Suc k..<n]"
    by (simp add: upt_conv_Cons)
  obtain r ip1 w1 where ab: "attempt_body srv url dest hdr ip w = (r, ip1, w1)"
    by (cases "attempt_body srv url dest hdr ip w") auto
  from attempt_body_quiet [OF ab] have q: "sleeps w1 = sleeps w" by simp
  show ?case
  proof (cases "Suc k < n")
    case True
    with Suc.prems ab unroll
    have rec: "retry_loop srv url dest m hdr [Suc k..<n] ip1
                 (sleep (2 ^ k) (say [MsgWait (2 ^ k)]
                    (say [MsgAttemptFailed (k + 1) m (projl r)] w1))) = (Inr False, w')"
      by (auto simp: Let_def split: sum.splits if_splits)
    from Suc.hyps(2) True have "d = n - Suc k" by simp
    from Suc.hyps(1) [OF this rec Suc.prems(2) True]
    have "sleeps w' = (sleeps w @ [2 ^ k]) @ map (\<lambda>i. 2 ^ i) [Suc k..<n - 1]"
      by (simp add: sleep_def say_def q)
    moreover from True have "[k..<n - 1] = k # [Suc k..<n - 1]"
      by (simp add: upt_conv_Cons)
    ultimately show ?thesis by simp
  next
    case False
    with Suc.prems have kn: "n = Suc k" by simp
    with Suc.prems ab unroll have "sleeps w' = sleeps w1"
      by (auto simp: Let_def say_def split: sum.splits if_splits)
    with q kn show ?thesis by simp
  qed
qed



subsection \<open>Accounting in download_models\<close>

lemma download_loop_count:
  "download_loop srv fl sc ff w = (Inr (sc', ff'), w') \<Longrightarrow>
     sc' + length ff' = sc + length ff + length fl"
proof (induction fl arbitrary: sc ff w)
  case Nil
  then show ?case by simp
next
  case (Cons filename rest)
  show ?case
  proof (cases filename)
    case (JStr name)
    show ?thesis
    proof (cases "path_exists w (join_path models_dir name)")
      case True
      with Cons.prems JStr
      have "download_loop srv rest (sc + 1) ff (say [MsgSkip name] w) = (Inr (sc', ff'), w')"
        by simp
      from Cons.IH [OF this] show ?thesis by simp
    next
      case False
      obtain r w1 where df:
        "download_file srv (DOWNLOAD_URL @ name) (join_path models_dir name) 3
           (say [MsgDownloading name] w) = (r, w1)"
        by (cases "download_file srv (DOWNLOAD_URL @ name) (join_path models_dir name) 3
                     (say [MsgDownloading name] w)")
      show ?thesis
      proof (cases r)
        case (Inl e)
        with Cons.prems JStr False df show ?thesis by simp
      next
        case (Inr ok)
        show ?thesis
        proof (cases ok)
          case True
          with Cons.prems JStr False df Inr
          have "download_loop srv rest (sc + 1) ff (say [MsgDone name] w1) = (Inr (sc', ff'), w')"
            by simp
          from Cons.IH [OF this] show ?thesis by simp
        next
          case no: False
          with Cons.prems JStr False df Inr
          have "download_loop srv rest sc (ff @ [name]) w1 = (Inr (sc', ff'), w')"
            by simp
          from Cons.IH [OF this] show ?thesis by simp
        qed
      qed
    qed
  qed (use Cons.prems in simp_all)
qed

text \<open>
  Claim C10. When \<open>download_models\<close> gets through its loop over the file list (it returns
  rather than raises), every entry of the list has been counted exactly once, as a success
  or as a failure: \<open>success_count + len(failed_files) = len(file_list)\<close>; and the value
  returned is True exactly when \<open>failed_files\<close> is empty.
\<close>

theorem download_models_accounting:
  "download_models srv w = (Inr b, w') \<Longrightarrow>
     \<exists>file_list w1 success_count failed_files w2.
        get_file_list srv (say [MsgRule, MsgTitle, MsgRule, MsgTarget, MsgListing] w)
          = (Inr file_list, w1)
      \<and> download_loop srv file_list 0 [] (say [MsgFound (length file_list)] w1)
          = (Inr (success_count, failed_files), w2)
      \<and> success_count + length failed_files = length file_list
      \<and> b = (failed_files = [])"
  unfolding download_models_def
  by (auto split: prod.splits sum.splits if_splits simp: Let_def dest: download_loop_count)

theorem download_models_accounting_witness:
  "download_models breaking_server empty_world
     = (Inr False, snd (download_models breaking_server empty_world))
   \<and> (\<exists>file_list w1 success_count failed_files w2.
        get_file_list breaking_server
            (say [MsgRule, MsgTitle, MsgRule, MsgTarget, MsgListing] empty_world)
          = (Inr file_list, w1)
      \<and> download_loop breaking_server file_list 0 [] (say [MsgFound (length file_list)] w1)
          = (Inr (success_count, failed_files), w2)
      \<and> success_count + length failed_files = length file_list
      \<and> False = (failed_files = []))"
proof -
  have h: "download_models breaking_server empty_world
     = (Inr False, snd (download_models breaking_server empty_world))"
    by (simp add: prod_eq_iff program_defs scenario_defs range3)
  from download_models_accounting [OF h] show ?thesis
    using h by blast
qed

subsection \<open>One attempt: the size check\<close>

lemma receive_complete:
  assumes st: "status_code response = 200 \<or> status_code response = 206"
      and ts: "total_size (content_length response) ip = Inr expected"
      and se: "stream_end response = EndOfStream"
  shows "receive response dest ip w =
           (let md = (if ip > 0 \<and> status_code response = 206 then AB else WB);
                w2 = write_all dest (chunks response) (open_file dest md w)
            in (if expected > 0 \<and> int (st_size w2 dest) \<noteq> expected
                then Inl SizeMismatch else Inr (), w2))"
  using st ts se by (auto simp: receive_def Let_def)

text \<open>Once the status is accepted, the content-length header is read and the stream has
  ended normally, the attempt fails with a size mismatch exactly when the expected total
  (content length plus \<open>initial_pos\<close>) is positive and differs from the size of the
  destination on disk; otherwise it succeeds. With no content-length header on a transfer
  from position 0 the expected total is 0 and the attempt succeeds.\<close>

lemma size_check_iff:
  assumes "status_code response = 200 \<or> status_code response = 206"
      and "total_size (content_length response) ip = Inr expected"
      and "stream_end response = EndOfStream"
      and "receive response dest ip w = (r, w')"
  shows "(r = Inl SizeMismatch \<longleftrightarrow> expected > 0 \<and> int (st_size w' dest) \<noteq> expected)
       \<and> (r = Inr () \<longleftrightarrow> \<not> (expected > 0 \<and> int (st_size w' dest) \<noteq> expected))
       \<and> (content_length response = NoLength \<and> ip = 0 \<longrightarrow> expected = 0 \<and> r = Inr ())"
  using assms(2,4) unfolding receive_complete [OF assms(1-3)]
  by (auto simp: Let_def total_size_def split: if_splits)

text \<open>A body shorter than the length declared fails the check; a body of the declared
  length, and a body of unknown length written from position 0, pass it.\<close>

lemma size_check_examples:
  "fst (receive short_response b_path 0 empty_world) = Inl SizeMismatch
   \<and> fst (receive (file_response None) b_path 0 empty_world) = Inr ()
   \<and> fst (receive unsized_response b_path 0 empty_world) = Inr ()"
  by (simp add: program_defs scenario_defs)

text \<open>
  Claim C7 says that the size check fires exactly when the expected total is positive and
  differs from the size on disk, and that it always passes when the server sends no
  content-length. The first part is \<open>size_check_iff\<close>. For the second, line 87 reads a
  missing header as 0 and line 101 skips the check when the total is 0, but line 87 adds
  \<open>initial_pos\<close> before the test: on a resumed transfer the total is \<open>initial_pos\<close>, not 0.
  Here two bytes are on disk and the server sends the remaining three with status 206 and
  no content-length: the expected total is 2, the file is complete with five bytes, and
  the attempt fails with a size mismatch; the call as a whole returns False. The same
  server and file fetched from position 0 succeed.
\<close>

theorem unsized_resume_fails_size_check:
  "total_size NoLength 2 = Inr 2
   \<and> fst (attempt_body unsized_server b_url b_path (Some 2) 2 partial_world) = Inl SizeMismatch
   \<and> files (snd (snd (attempt_body unsized_server b_url b_path (Some 2) 2 partial_world))) b_path
       = Some remote_file
   \<and> fst (download_file unsized_server b_url b_path 3 partial_world) = Inr False
   \<and> fst (download_file unsized_server b_url b_path 3 empty_world) = Inr True"
  by (simp add: program_defs scenario_defs range3)

subsection \<open>One attempt: the server refuses or ignores the range\<close>

lemma open_WB: "files (open_file dest WB w) = (files w)(dest \<mapsto> [])"
  "opened (open_file dest WB w) = opened w @ [(dest, WB)]"
  "requests (open_file dest m w) = requests w"
  by (auto simp: open_file_def Let_def split: mode.splits option.splits)

lemma open_AB_existing:
  "files w dest = Some old \<Longrightarrow> files (open_file dest AB w) = files w"
  by (auto simp: open_file_def Let_def)

lemma write_all_files:
  "files w dest = Some b \<Longrightarrow> files (write_all dest cs w) = (files w)(dest \<mapsto> b @ concat cs)"
  by (simp add: write_all_def write_chunks_concat)

lemma write_all_other:
  "requests (write_all dest cs w) = requests w" "opened (write_all dest cs w) = opened w"
  by (auto simp: write_all_def split: option.splits)

lemma receive_accepted:
  assumes "status_code response = 200 \<or> status_code response = 206"
      and "content_length response \<noteq> BadLength"
      and "receive response dest 0 w = (r, w')"
  shows "opened w' = opened w @ [(dest, WB)]"
    and "files w' = (files w)(dest \<mapsto> concat (chunks response))"
  using assms
  by (auto simp: receive_def Let_def open_WB write_all_files write_all_other total_size_def
           split: if_splits sum.splits stream_ending.splits length_header.splits)

lemma receive_refused:
  assumes "\<not> ((status_code response = 200 \<or> status_code response = 206)
             \<and> content_length response \<noteq> BadLength)"
      and "receive response dest ip w = (r, w')"
  shows "w' = w" and "\<exists>e. r = Inl e"
  using assms
  by (auto simp: receive_def Let_def total_size_def split: if_splits)

text \<open>
  Claim C6. An attempt that sends a Range header with \<open>initial_pos > 0\<close> and is answered
  416 or 200 sets \<open>initial_pos\<close> to 0 and issues a second GET without a Range header. When
  the reply to that GET is accepted (status 200 or 206 with a readable content-length), the
  destination is opened exactly once, in mode \<^verbatim>\<open>'wb'\<close>, and then holds the bytes of the
  second response and nothing else: the file is rewritten from byte zero and nothing is
  appended to the old partial content. When the second GET fails or its reply is refused,
  the attempt fails without opening or changing any file.
\<close>

theorem range_fallback:
  assumes "ip > 0"
      and "srv (length (requests w)) \<lparr>req_url = url, req_range = Some n\<rparr> = Reply response"
      and "status_code response = 416 \<or> status_code response = 200"
      and "attempt_body srv url dest (Some n) ip w = (r, ip', w')"
  shows "ip' = 0
       \<and> requests w' = requests w @ [\<lparr>req_url = url, req_range = Some n\<rparr>,
                                      \<lparr>req_url = url, req_range = None\<rparr>]
       \<and> (\<forall>response2.
             srv (Suc (length (requests w))) \<lparr>req_url = url, req_range = None\<rparr> = Reply response2
           \<and> (status_code response2 = 200 \<or> status_code response2 = 206)
           \<and> content_length response2 \<noteq> BadLength
           \<longrightarrow> opened w' = opened w @ [(dest, WB)]
             \<and> files w' = (files w)(dest \<mapsto> concat (chunks response2)))
       \<and> ((\<forall>response2.
               srv (Suc (length (requests w))) \<lparr>req_url = url, req_range = None\<rparr> = Reply response2
               \<longrightarrow> \<not> ((status_code response2 = 200 \<or> status_code response2 = 206)
                       \<and> content_length response2 \<noteq> BadLength))
           \<longrightarrow> opened w' = opened w \<and> files w' = files w \<and> (\<exists>e. r = Inl e))"
proof -
  let ?w1 = "w\<lparr>requests := requests w @ [\<lparr>req_url = url, req_range = Some n\<rparr>]\<rparr>"
  let ?w2 = "?w1\<lparr>requests := requests ?w1 @ [\<lparr>req_url = url, req_range = None\<rparr>]\<rparr>"
  have g1: "requests_get srv url (Some n) w = (Inr response, ?w1)"
    using assms(2) by (simp add: requests_get_def Let_def)
  show ?thesis
  proof (cases "srv (Suc (length (requests w))) \<lparr>req_url = url, req_range = None\<rparr>")
    case (Reply response2)
    then have g2: "requests_get srv url None ?w1 = (Inr response2, ?w2)"
      by (simp add: requests_get_def Let_def)
    obtain r3 w3 where rc: "receive response2 dest 0 ?w2 = (r3, w3)"
      by (cases "receive response2 dest 0 ?w2")
    from assms(1,3,4) g1 g2 rc have res: "r = r3" "ip' = 0" "w' = w3"
      by (auto simp: attempt_body_def)
    have rq: "requests w' = requests w @ [\<lparr>req_url = url, req_range = Some n\<rparr>,
                                           \<lparr>req_url = url, req_range = None\<rparr>]"
      using receive_quiet [OF rc] res by simp
    show ?thesis
    proof (cases "(status_code response2 = 200 \<or> status_code response2 = 206)
                   \<and> content_length response2 \<noteq> BadLength")
      case True
      from receive_accepted [OF _ _ rc] True res
      have "opened w' = opened w @ [(dest, WB)]"
           "files w' = (files w)(dest \<mapsto> concat (chunks response2))"
        by simp_all
      with res rq Reply True show ?thesis by auto
    next
      case False
      from receive_refused [OF False rc] res
      have "opened w' = opened w" "files w' = files w" "\<exists>e. r = Inl e"
        by simp_all
      with res rq Reply False show ?thesis by auto
    qed
  next
    case ConnectionError
    then have "requests_get srv url None ?w1 = (Inl RequestException, ?w2)"
      by (simp add: requests_get_def Let_def)
    with assms(1,3,4) g1 ConnectionError show ?thesis
      by (auto simp: attempt_body_def)
  next
    case Interrupt
    then have "requests_get srv url None ?w1 = (Inl KeyboardInterrupt, ?w2)"
      by (simp add: requests_get_def Let_def)
    with assms(1,3,4) g1 Interrupt show ?thesis
      by (auto simp: attempt_body_def)
  qed
qed

theorem range_fallback_witness:
  "(0::nat) < 2
   \<and> rangeless_server (length (requests partial_world)) \<lparr>req_url = b_url, req_range = Some 2\<rparr>
       = Reply (file_response None)
   \<and> status_code (file_response None) = 200
   \<and> files partial_world b_path = Some [1, 2]
   \<and> fst (snd (attempt_body rangeless_server b_url b_path (Some 2) 2 partial_world)) = 0
   \<and> requests (snd (snd (attempt_body rangeless_server b_url b_path (Some 2) 2 partial_world)))
       = [\<lparr>req_url = b_url, req_range = Some 2\<rparr>, \<lparr>req_url = b_url, req_range = None\<rparr>]
   \<and> opened (snd (snd (attempt_body rangeless_server b_url b_path (Some 2) 2 partial_world)))
       = [(b_path, WB)]
   \<and> files (snd (snd (attempt_body rangeless_server b_url b_path (Some 2) 2 partial_world))) b_path
       = Some [1, 2, 3, 4, 5]"
proof -
  let ?res = "attempt_body rangeless_server b_url b_path (Some 2) 2 partial_world"
  have h1: "(0::nat) < 2" by simp
  have h2: "rangeless_server (length (requests partial_world))
              \<lparr>req_url = b_url, req_range = Some 2\<rparr> = Reply (file_response None)"
    by (simp add: rangeless_server_def)
  have h3: "status_code (file_response None) = 416 \<or> status_code (file_response None) = 200"
    by (simp add: file_response_def)
  have h4: "?res = (fst ?res, fst (snd ?res), snd (snd ?res))"
    by simp
  have second: "rangeless_server (Suc (length (requests partial_world)))
              \<lparr>req_url = b_url, req_range = None\<rparr> = Reply (file_response None)
            \<and> (status_code (file_response None) = 200 \<or> status_code (file_response None) = 206)
            \<and> content_length (file_response None) \<noteq> BadLength"
    by (simp add: rangeless_server_def file_response_def)
  have e: "requests partial_world = []" "opened partial_world = []"
          "files partial_world b_path = Some [1, 2]"
    by (simp_all add: partial_world_def empty_world_def)
  note fb = range_fallback [OF h1 h2 h3 h4]
  from fb have a: "fst (snd ?res) = 0"
      "requests (snd (snd ?res)) = requests partial_world @
         [\<lparr>req_url = b_url, req_range = Some 2\<rparr>, \<lparr>req_url = b_url, req_range = None\<rparr>]"
    by blast+
  from fb second
  have b: "opened (snd (snd ?res)) = opened partial_world @ [(b_path, WB)]
         \<and> files (snd (snd ?res))
             = (files partial_world)(b_path \<mapsto> concat (chunks (file_response None)))"
    by blast
  from a b e h1 h2 h3 show ?thesis
    by (simp add: file_response_def remote_file_def)
qed

subsection \<open>Resuming a partial file\<close>

text \<open>
  Claim C8. The destination holds \<open>N > 0\<close> bytes, and the server answers the ranged
  request with 206, a content length of \<open>T - N\<close> and the bytes of the \<open>T\<close>-byte remote file
  from offset \<open>N\<close> on. Then one call of \<open>download_file\<close> (with at least one attempt allowed)
  returns True, the destination has exactly \<open>T\<close> bytes, and its first \<open>N\<close> bytes are the
  ones that were on disk; if those were the first \<open>N\<close> bytes of the remote file, the
  destination now equals the remote file.
\<close>

theorem resume_correct:
  assumes old: "files w dest = Some old" "old \<noteq> []"
      and le: "length old \<le> length remote"
      and rp: "srv (length (requests w)) \<lparr>req_url = url, req_range = Some (length old)\<rparr>
                 = Reply response"
      and st: "status_code response = 206"
      and cl: "content_length response = Length (int (length remote) - int (length old))"
      and body: "concat (chunks response) = drop (length old) remote"
      and se: "stream_end response = EndOfStream"
      and mr: "0 < max_retries"
  shows "\<exists>w'. download_file srv url dest max_retries w = (Inr True, w')
           \<and> files w' dest = Some (old @ drop (length old) remote)
           \<and> st_size w' dest = length remote
           \<and> take (length old) (old @ drop (length old) remote) = old
           \<and> (old = take (length old) remote \<longrightarrow> files w' dest = Some remote)
           \<and> opened w' = opened w @ [(dest, AB)]
           \<and> requests w' = requests w @ [\<lparr>req_url = url, req_range = Some (length old)\<rparr>]"
proof -
  let ?N = "length old"
  let ?w1 = "w\<lparr>requests := requests w @ [\<lparr>req_url = url, req_range = Some ?N\<rparr>]\<rparr>"
  let ?w2 = "write_all dest (chunks response) (open_file dest AB ?w1)"
  have g1: "requests_get srv url (Some ?N) w = (Inr response, ?w1)"
    using rp by (simp add: requests_get_def Let_def)
  have pos: "?N > 0" using old(2) by simp
  have ts: "total_size (content_length response) ?N = Inr (int (length remote))"
    using cl by (simp add: total_size_def)
  have f1: "files ?w1 dest = Some old" using old(1) by simp
  have f2: "files ?w2 dest = Some (old @ drop ?N remote)"
    using f1 body by (simp add: write_all_files open_AB_existing)
  have sz: "st_size ?w2 dest = length remote"
    using f2 le by (simp add: st_size_def)
  have rc: "receive response dest ?N ?w1 = (Inr (), ?w2)"
    using st pos sz by (simp add: receive_complete [OF _ ts se] Let_def)
  have ab: "attempt_body srv url dest (Some ?N) ?N w = (Inr (), ?N, ?w2)"
    using g1 rc st by (simp add: attempt_body_def)
  from mr have up: "[0..<nat max_retries] = 0 # [Suc 0..<nat max_retries]"
    by (simp add: upt_conv_Cons)
  have "download_file srv url dest max_retries w = (Inr True, ?w2)"
    using old(1) ab up by (simp add: download_file_def path_exists_def st_size_def)
  moreover have "old = take ?N remote \<longrightarrow> old @ drop ?N remote = remote"
    by (metis append_take_drop_id)
  moreover have "opened ?w2 = opened w @ [(dest, AB)]"
    using old(1) by (simp add: write_all_other open_file_def Let_def)
  moreover have "requests ?w2 = requests w @ [\<lparr>req_url = url, req_range = Some ?N\<rparr>]"
    by (simp add: write_all_other open_WB)
  ultimately show ?thesis using f2 sz by auto
qed

theorem resume_correct_witness:
  "files partial_world b_path = Some [1, 2]
   \<and> (\<exists>w'. download_file good_server b_url b_path 3 partial_world = (Inr True, w')
          \<and> files w' b_path = Some remote_file \<and> st_size w' b_path = 5)"
proof -
  have h1: "files partial_world b_path = Some [1, 2]"
    by (simp add: partial_world_def empty_world_def)
  have h2: "[1, 2] \<noteq> ([] :: byte list)" by simp
  have h3: "length [1, 2 :: byte] \<le> length remote_file"
    by (simp add: remote_file_def)
  have h4: "good_server (length (requests partial_world))
              \<lparr>req_url = b_url, req_range = Some (length [1, 2 :: byte])\<rparr>
              = Reply (file_response (Some 2))"
    by (simp add: good_server_def b_url_def DOWNLOAD_URL_def MODELSCOPE_API_def file_response_def
                  remote_file_def)
  have h5: "status_code (file_response (Some 2)) = 206"
    by (simp add: file_response_def)
  have h6: "content_length (file_response (Some 2))
              = Length (int (length remote_file) - int (length [1, 2 :: byte]))"
    by (simp add: file_response_def remote_file_def)
  have h7: "concat (chunks (file_response (Some 2))) = drop (length [1, 2 :: byte]) remote_file"
    by (simp add: file_response_def remote_file_def)
  have h8: "stream_end (file_response (Some 2)) = EndOfStream"
    by (simp add: file_response_def)
  have h9: "(0::int) < 3" by simp
  have pre: "[1, 2 :: byte] = take (length [1, 2 :: byte]) remote_file"
    by (simp add: remote_file_def)
  from resume_correct [where srv = good_server and url = b_url and remote = remote_file,
                        OF h1 h2 h3 h4 h5 h6 h7 h8 h9] pre h1 show ?thesis
    by (auto simp: remote_file_def)
qed

subsection \<open>Retries do not read the file size again\<close>

text \<open>
  Claim C1 says that a retry sends the size the destination has at the time of the
  retry. The code reads the size once, before the loop (lines 68 to 72), and every attempt
  sends that same Range header. Here two bytes are on disk, the first attempt appends one
  byte and then breaks, and the server honours every later request: the retries ask for
  offset 2 again (not 3), the range is appended a second and a third time, the size check
  fails each time, and the call returns False with nine bytes on disk for a five-byte file.
\<close>

theorem retry_reuses_stale_offset:
  "fst (download_file flaky_server b_url b_path 3 partial_world) = Inr False
   \<and> requests (snd (download_file flaky_server b_url b_path 3 partial_world))
       = [\<lparr>req_url = b_url, req_range = Some 2\<rparr>, \<lparr>req_url = b_url, req_range = Some 2\<rparr>,
          \<lparr>req_url = b_url, req_range = Some 2\<rparr>]
   \<and> files (snd (download_file flaky_server b_url b_path 3 partial_world)) b_path
       = Some [1, 2, 3, 3, 4, 5, 3, 4, 5]"
  by (simp add: program_defs scenario_defs range3)

text \<open>The same stale header after line 81 has reset \<open>initial_pos\<close>: the first attempt is
  answered 416 and its plain GET fails; the retry sends Range 2 again with
  \<open>initial_pos = 0\<close>, writes the 206 body in mode \<^verbatim>\<open>'wb'\<close>, passes the size check and
  returns True with only the last three bytes of the file on disk.\<close>

lemma stale_header_after_reset:
  "fst (download_file recovering_server b_url b_path 3 partial_world) = Inr True
   \<and> requests (snd (download_file recovering_server b_url b_path 3 partial_world))
       = [\<lparr>req_url = b_url, req_range = Some 2\<rparr>, \<lparr>req_url = b_url, req_range = None\<rparr>,
          \<lparr>req_url = b_url, req_range = Some 2\<rparr>]
   \<and> files (snd (download_file recovering_server b_url b_path 3 partial_world)) b_path
       = Some [3, 4, 5]"
  by (simp add: program_defs scenario_defs range3)

subsection \<open>A partial file and the next run\<close>

text \<open>
  Claim C2 says that a later run resumes a file that a failed run left partial. The loop
  of \<open>download_models\<close> skips every destination that exists, whatever its size. Here a
  first run, against a server whose transfers break, leaves two of the five bytes of
  \<open>b.bin\<close> and exits with 1; a second run against a healthy server issues the listing
  request only, leaves the two bytes as they are and exits with 0.
\<close>

theorem partial_file_is_skipped:
  "fst (main breaking_server empty_world) = 1
   \<and> files (snd (main breaking_server empty_world)) b_path = Some [1, 2]
   \<and> fst (main good_server (snd (main breaking_server empty_world))) = 0
   \<and> files (snd (main good_server (snd (main breaking_server empty_world)))) b_path = Some [1, 2]
   \<and> drop (length (requests (snd (main breaking_server empty_world))))
        (requests (snd (main good_server (snd (main breaking_server empty_world)))))
       = [\<lparr>req_url = MODELSCOPE_API, req_range = None\<rparr>]"
  by (simp add: program_defs scenario_defs range3)

subsection \<open>Existing destinations are skipped\<close>

text \<open>What a call of \<open>download_file\<close> can touch: it issues requests for its own URL only,
  changes no file but its destination, and leaves the destination in place when it
  returns True.\<close>

lemma receive_frame:
  "receive response dest ip w = (r, w') \<Longrightarrow>
     requests w' = requests w
   \<and> (\<forall>p. p \<noteq> dest \<longrightarrow> files w' p = files w p)
   \<and> (r = Inr () \<longrightarrow> files w' dest \<noteq> None)"
  by (auto simp: receive_def Let_def open_file_def write_all_def
           split: if_splits sum.splits stream_ending.splits mode.splits option.splits)

lemma attempt_body_frame:
  assumes "attempt_body srv url dest hdr ip w = (r, ip', w')"
  shows "(\<exists>rs. requests w' = requests w @ rs \<and> (\<forall>rq\<in>set rs. req_url rq = url))
       \<and> (\<forall>p. p \<noteq> dest \<longrightarrow> files w' p = files w p)
       \<and> (r = Inr () \<longrightarrow> files w' dest \<noteq> None)"
  using assms unfolding attempt_body_def
  by (auto split: prod.splits sum.splits if_splits
           dest!: requests_get_world receive_frame)

lemma retry_loop_frame:
  "retry_loop srv url dest m hdr as ip w = (r, w') \<Longrightarrow>
     (\<exists>rs. requests w' = requests w @ rs \<and> (\<forall>rq\<in>set rs. req_url rq = url))
   \<and> (\<forall>p. p \<noteq> dest \<longrightarrow> files w' p = files w p)
   \<and> (r = Inr True \<longrightarrow> files w' dest \<noteq> None)"
proof (induction as arbitrary: ip w)
  case Nil
  then show ?case by auto
next
  case (Cons a as)
  obtain r1 ip1 w1 where ab: "attempt_body srv url dest hdr ip w = (r1, ip1, w1)"
    by (cases "attempt_body srv url dest hdr ip w") auto
  note fr = attempt_body_frame [OF ab]
  show ?case
  proof (cases r1)
    case (Inr u)
    with Cons.prems ab have "r = Inr True" "w' = w1" by auto
    with fr Inr show ?thesis by auto
  next
    case (Inl e)
    show ?thesis
    proof (cases "is_Exception e \<and> int a < m - 1")
      case True
      let ?w2 = "sleep (2 ^ a) (say [MsgWait (2 ^ a)] (say [MsgAttemptFailed (a + 1) m e] w1))"
      from True Cons.prems ab Inl
      have rec: "retry_loop srv url dest m hdr as ip1 ?w2 = (r, w')"
        by (simp add: Let_def)
      have same: "requests ?w2 = requests w1" "files ?w2 = files w1"
        by (simp_all add: sleep_def say_def)
      from Cons.IH [OF rec] fr same show ?thesis
        by (auto simp: Inl)
    next
      case False
      with Cons.prems ab Inl
      have "r \<noteq> Inr True" "requests w' = requests w1" "files w' = files w1"
        by (auto simp: Let_def say_def split: if_splits)
      with fr show ?thesis by auto
    qed
  qed
qed

lemma download_file_frame:
  "download_file srv url dest m w = (r, w') \<Longrightarrow>
     (\<exists>rs. requests w' = requests w @ rs \<and> (\<forall>rq\<in>set rs. req_url rq = url))
   \<and> (\<forall>p. p \<noteq> dest \<longrightarrow> files w' p = files w p)
   \<and> (r = Inr True \<longrightarrow> files w' dest \<noteq> None)"
  unfolding download_file_def
  by (auto simp: Let_def split: if_splits dest!: retry_loop_frame)

lemma download_loop_step:
  assumes "download_loop srv (f # rest) sc ff w = (Inr res, w')"
  obtains
    (skip) name where "f = JStr name" "path_exists w (join_path models_dir name)"
      "download_loop srv rest (sc + 1) ff (say [MsgSkip name] w) = (Inr res, w')"
  | (fetched) name w1 where "f = JStr name" "\<not> path_exists w (join_path models_dir name)"
      "download_file srv (DOWNLOAD_URL @ name) (join_path models_dir name) 3
         (say [MsgDownloading name] w) = (Inr True, w1)"
      "download_loop srv rest (sc + 1) ff (say [MsgDone name] w1) = (Inr res, w')"
  | (failed) name w1 where "f = JStr name" "\<not> path_exists w (join_path models_dir name)"
      "download_file srv (DOWNLOAD_URL @ name) (join_path models_dir name) 3
         (say [MsgDownloading name] w) = (Inr False, w1)"
      "download_loop srv rest sc (ff @ [name]) w1 = (Inr res, w')"
proof (cases f)
  case (JStr name)
  show ?thesis
  proof (cases "path_exists w (join_path models_dir name)")
    case True
    with assms JStr show ?thesis by (intro skip [of name]) simp_all
  next
    case False
    obtain r w1 where df:
      "download_file srv (DOWNLOAD_URL @ name) (join_path models_dir name) 3
         (say [MsgDownloading name] w) = (r, w1)"
      by (cases "download_file srv (DOWNLOAD_URL @ name) (join_path models_dir name) 3
                   (say [MsgDownloading name] w)")
    show ?thesis
    proof (cases r)
      case (Inl e)
      with assms JStr False df show ?thesis by simp
    next
      case (Inr ok)
      show ?thesis
      proof (cases ok)
        case True
        with assms JStr False df Inr show ?thesis by (intro fetched [of name w1]) simp_all
      next
        case no: False
        with assms JStr False df Inr show ?thesis by (intro failed [of name w1]) simp_all
      qed
    qed
  qed
qed (use assms in simp_all)


lemma filter_length_mono:
  "(\<And>x. x \<in> set xs \<Longrightarrow> P x \<Longrightarrow> Q x) \<Longrightarrow> length (filter P xs) \<le> length (filter Q xs)"
  by (induction xs) auto

lemma say_fields [simp]:
  "files (say ms w) = files w" "requests (say ms w) = requests w"
  "opened (say ms w) = opened w" "sleeps (say ms w) = sleeps w"
  by (simp_all add: say_def)

lemma path_exists_say [simp]: "path_exists (say ms w) p = path_exists w p"
  by (simp add: path_exists_def)

lemma present_say [simp]: "present (say ms w) = present w"
  by (rule ext) (simp add: present_def split: json.splits)

lemma present_JStr [simp]:
  "present w (JStr name) = path_exists w (join_path models_dir name)"
  by (simp add: present_def)

lemma download_file_keeps:
  assumes "download_file srv url dest m w = (r, w')" and "\<not> path_exists w dest"
      and "path_exists w p"
  shows "files w' p = files w p" and "path_exists w' p"
proof -
  from assms(2,3) have "p \<noteq> dest" by auto
  with download_file_frame [OF assms(1)] show "files w' p = files w p" by simp
  with assms(3) show "path_exists w' p" by (simp add: path_exists_def)
qed

lemma download_loop_keeps:
  "download_loop srv fl sc ff w = (Inr res, w') \<Longrightarrow> path_exists w p \<Longrightarrow>
     files w' p = files w p"
proof (induction fl arbitrary: sc ff w)
  case Nil
  then show ?case by simp
next
  case (Cons f rest)
  from Cons.prems(1) show ?case
  proof (cases rule: download_loop_step)
    case (skip name)
    from Cons.IH [OF skip(3)] Cons.prems(2) show ?thesis by simp
  next
    case (fetched name w1)
    from download_file_keeps [OF fetched(3)] fetched(2) Cons.prems(2)
    have k: "files w1 p = files w p" "path_exists w1 p" by simp_all
    from Cons.IH [OF fetched(4)] k show ?thesis by simp
  next
    case (failed name w1)
    from download_file_keeps [OF failed(3)] failed(2) Cons.prems(2)
    have k: "files w1 p = files w p" "path_exists w1 p" by simp_all
    from Cons.IH [OF failed(4)] k show ?thesis by simp
  qed
qed

lemma download_loop_requests:
  "download_loop srv fl sc ff w = (Inr res, w') \<Longrightarrow>
     \<exists>rs. requests w' = requests w @ rs
        \<and> (\<forall>rq\<in>set rs. \<exists>name. JStr name \<in> set fl
               \<and> \<not> path_exists w (join_path models_dir name)
               \<and> req_url rq = DOWNLOAD_URL @ name)"
proof (induction fl arbitrary: sc ff w)
  case Nil
  then show ?case by simp
next
  case (Cons f rest)
  from Cons.prems(1) show ?case
  proof (cases rule: download_loop_step)
    case (skip name)
    from Cons.IH [OF skip(3)] show ?thesis by fastforce
  next
    case (fetched name w1)
    from download_file_frame [OF fetched(3)]
    obtain rs1 where r1: "requests w1 = requests w @ rs1"
        "\<forall>rq\<in>set rs1. req_url rq = DOWNLOAD_URL @ name"
      by auto
    from Cons.IH [OF fetched(4)]
    obtain rs2 where r2: "requests w' = requests w1 @ rs2"
        "\<forall>rq\<in>set rs2. \<exists>n. JStr n \<in> set rest
               \<and> \<not> path_exists w1 (join_path models_dir n)
               \<and> req_url rq = DOWNLOAD_URL @ n"
      by auto
    have mono: "\<And>q. \<not> path_exists w1 q \<Longrightarrow> \<not> path_exists w q"
      using download_file_keeps(2) [OF fetched(3)] fetched(2) by auto
    have "requests w' = requests w @ (rs1 @ rs2)" using r1(1) r2(1) by simp
    moreover have "\<forall>rq\<in>set (rs1 @ rs2). \<exists>n. JStr n \<in> set (f # rest)
               \<and> \<not> path_exists w (join_path models_dir n)
               \<and> req_url rq = DOWNLOAD_URL @ n"
      using r1(2) r2(2) fetched(1,2) mono by fastforce
    ultimately show ?thesis by blast
  next
    case (failed name w1)
    from download_file_frame [OF failed(3)]
    obtain rs1 where r1: "requests w1 = requests w @ rs1"
        "\<forall>rq\<in>set rs1. req_url rq = DOWNLOAD_URL @ name"
      by auto
    from Cons.IH [OF failed(4)]
    obtain rs2 where r2: "requests w' = requests w1 @ rs2"
        "\<forall>rq\<in>set rs2. \<exists>n. JStr n \<in> set rest
               \<and> \<not> path_exists w1 (join_path models_dir n)
               \<and> req_url rq = DOWNLOAD_URL @ n"
      by auto
    have mono: "\<And>q. \<not> path_exists w1 q \<Longrightarrow> \<not> path_exists w q"
      using download_file_keeps(2) [OF failed(3)] failed(2) by auto
    have "requests w' = requests w @ (rs1 @ rs2)" using r1(1) r2(1) by simp
    moreover have "\<forall>rq\<in>set (rs1 @ rs2). \<exists>n. JStr n \<in> set (f # rest)
               \<and> \<not> path_exists w (join_path models_dir n)
               \<and> req_url rq = DOWNLOAD_URL @ n"
      using r1(2) r2(2) failed(1,2) mono by fastforce
    ultimately show ?thesis by blast
  qed
qed

lemma download_loop_failed:
  "download_loop srv fl sc ff w = (Inr (sc', ff'), w') \<Longrightarrow>
     \<exists>fs. ff' = ff @ fs
        \<and> (\<forall>n\<in>set fs. JStr n \<in> set fl \<and> \<not> path_exists w (join_path models_dir n))
        \<and> (\<forall>n. JStr n \<in> set fl \<and> n \<notin> set fs \<longrightarrow> path_exists w' (join_path models_dir n))"
proof (induction fl arbitrary: sc ff w)
  case Nil
  then show ?case by simp
next
  case (Cons f rest)
  from Cons.prems(1) show ?case
  proof (cases rule: download_loop_step)
    case (skip name)
    from Cons.IH [OF skip(3)]
    obtain fs where fs: "ff' = ff @ fs"
        "\<forall>n\<in>set fs. JStr n \<in> set rest \<and> \<not> path_exists w (join_path models_dir n)"
        "\<forall>n. JStr n \<in> set rest \<and> n \<notin> set fs \<longrightarrow> path_exists w' (join_path models_dir n)"
      by auto
    from download_loop_keeps [OF skip(3)] skip(2)
    have "path_exists w' (join_path models_dir name)"
      by (simp add: path_exists_def)
    with fs skip(1) show ?thesis by auto
  next
    case (fetched name w1)
    from Cons.IH [OF fetched(4)]
    obtain fs where fs: "ff' = ff @ fs"
        "\<forall>n\<in>set fs. JStr n \<in> set rest \<and> \<not> path_exists w1 (join_path models_dir n)"
        "\<forall>n. JStr n \<in> set rest \<and> n \<notin> set fs \<longrightarrow> path_exists w' (join_path models_dir n)"
      by auto
    have mono: "\<And>q. \<not> path_exists w1 q \<Longrightarrow> \<not> path_exists w q"
      using download_file_keeps(2) [OF fetched(3)] fetched(2) by auto
    from download_file_frame [OF fetched(3)]
    have "path_exists (say [MsgDone name] w1) (join_path models_dir name)"
      by (simp add: path_exists_def)
    with download_loop_keeps [OF fetched(4)]
    have "path_exists w' (join_path models_dir name)"
      by (simp add: path_exists_def)
    with fs fetched(1) mono show ?thesis by auto
  next
    case (failed name w1)
    from Cons.IH [OF failed(4)]
    obtain fs where fs: "ff' = (ff @ [name]) @ fs"
        "\<forall>n\<in>set fs. JStr n \<in> set rest \<and> \<not> path_exists w1 (join_path models_dir n)"
        "\<forall>n. JStr n \<in> set rest \<and> n \<notin> set fs \<longrightarrow> path_exists w' (join_path models_dir n)"
      by auto
    have mono: "\<And>q. \<not> path_exists w1 q \<Longrightarrow> \<not> path_exists w q"
      using download_file_keeps(2) [OF failed(3)] failed(2) by auto
    have "ff' = ff @ (name # fs)" using fs(1) by simp
    moreover have "\<forall>n\<in>set (name # fs). JStr n \<in> set (f # rest)
                     \<and> \<not> path_exists w (join_path models_dir n)"
      using fs(2) failed(1,2) mono by auto
    moreover have "\<forall>n. JStr n \<in> set (f # rest) \<and> n \<notin> set (name # fs)
                     \<longrightarrow> path_exists w' (join_path models_dir n)"
      using fs(3) failed(1) by auto
    ultimately show ?thesis by blast
  qed
qed

lemma download_loop_strings:
  "download_loop srv fl sc ff w = (Inr res, w') \<Longrightarrow> \<forall>f\<in>set fl. \<exists>name. f = JStr name"
proof (induction fl arbitrary: sc ff w)
  case Nil
  then show ?case by simp
next
  case (Cons f rest)
  from Cons.prems(1) show ?case
    by (cases rule: download_loop_step) (use Cons.IH in auto)
qed

lemma download_loop_present_count:
  "download_loop srv fl sc ff w = (Inr (sc', ff'), w') \<Longrightarrow>
     sc + length (filter (present w) fl) \<le> sc'"
proof (induction fl arbitrary: sc ff w)
  case Nil
  then show ?case by simp
next
  case (Cons f rest)
  from Cons.prems(1) show ?case
  proof (cases rule: download_loop_step)
    case (skip name)
    from Cons.IH [OF skip(3)] skip(1,2) show ?thesis
      by simp
  next
    case (fetched name w1)
    have "\<And>x. present w x \<Longrightarrow> present w1 x"
      using download_file_keeps(2) [OF fetched(3)] fetched(2)
      by (auto simp: present_def split: json.splits)
    then have "length (filter (present w) rest) \<le> length (filter (present w1) rest)"
      by (intro filter_length_mono)
    with Cons.IH [OF fetched(4)] fetched(1,2) show ?thesis
      by simp
  next
    case (failed name w1)
    have "\<And>x. present w x \<Longrightarrow> present w1 x"
      using download_file_keeps(2) [OF failed(3)] failed(2)
      by (auto simp: present_def split: json.splits)
    then have "length (filter (present w) rest) \<le> length (filter (present w1) rest)"
      by (intro filter_length_mono)
    with Cons.IH [OF failed(4)] failed(1,2) show ?thesis
      by simp
  qed
qed

lemma download_loop_all_present:
  "\<forall>f\<in>set fl. present w f \<Longrightarrow>
     \<exists>w'. download_loop srv fl sc ff w = (Inr (sc + length fl, ff), w')
         \<and> requests w' = requests w \<and> files w' = files w
         \<and> opened w' = opened w \<and> sleeps w' = sleeps w"
proof (induction fl arbitrary: sc w)
  case Nil
  then show ?case by simp
next
  case (Cons f rest)
  from Cons.prems obtain name where f: "f = JStr name"
      "path_exists w (join_path models_dir name)"
    by (auto simp: present_def split: json.splits)
  from Cons.prems have "\<forall>f\<in>set rest. present (say [MsgSkip name] w) f" by simp
  from Cons.IH [OF this, of "sc + 1"] f show ?case by auto
qed

text \<open>
  Claim C3. In a run of the loop of \<open>download_models\<close>, a file name whose destination
  exists before the run is never reported as failed, no request is issued for its URL, and
  its file is left as it was; every such entry is counted in \<open>success_count\<close>. If every
  destination exists, the run issues no request at all, opens and changes no file, and
  counts every entry as a success. And a run that ends with no failed file leaves every
  destination in place, so that a second run over the same list, from any world with the
  same files, issues no request and counts every entry as already present.
\<close>

theorem existing_files_are_skipped:
  assumes run: "download_loop srv file_list 0 [] w = (Inr (success_count, failed_files), w')"
  shows "(\<forall>name. JStr name \<in> set file_list \<and> path_exists w (join_path models_dir name) \<longrightarrow>
            name \<notin> set failed_files
          \<and> (\<forall>rq \<in> set (drop (length (requests w)) (requests w')).
                req_url rq \<noteq> DOWNLOAD_URL @ name)
          \<and> files w' (join_path models_dir name) = files w (join_path models_dir name))
       \<and> length (filter (present w) file_list) \<le> success_count
       \<and> ((\<forall>f \<in> set file_list. present w f) \<longrightarrow>
            success_count = length file_list \<and> failed_files = []
          \<and> requests w' = requests w \<and> files w' = files w \<and> opened w' = opened w)
       \<and> (failed_files = [] \<longrightarrow>
            (\<forall>srv2 (w2 :: world). files w2 = files w' \<longrightarrow>
               (\<exists>w3. download_loop srv2 file_list 0 [] w2 = (Inr (length file_list, []), w3)
                    \<and> requests w3 = requests w2 \<and> files w3 = files w2
                    \<and> opened w3 = opened w2)))"
proof (intro conjI allI impI ballI)
  fix name
  assume ex: "JStr name \<in> set file_list \<and> path_exists w (join_path models_dir name)"
  from download_loop_failed [OF run] ex show "name \<notin> set failed_files"
    by auto
  from download_loop_keeps [OF run] ex
  show "files w' (join_path models_dir name) = files w (join_path models_dir name)"
    by simp
  fix rq
  assume rq: "rq \<in> set (drop (length (requests w)) (requests w'))"
  from download_loop_requests [OF run]
  obtain rs where rs: "requests w' = requests w @ rs"
      "\<forall>rq\<in>set rs. \<exists>n. JStr n \<in> set file_list
          \<and> \<not> path_exists w (join_path models_dir n) \<and> req_url rq = DOWNLOAD_URL @ n"
    by auto
  from rq rs(1) have "rq \<in> set rs" by simp
  with rs(2) obtain n where n: "\<not> path_exists w (join_path models_dir n)"
      "req_url rq = DOWNLOAD_URL @ n"
    by auto
  from n(1) ex have "n \<noteq> name" by auto
  with n(2) show "req_url rq \<noteq> DOWNLOAD_URL @ name" by simp
next
  from download_loop_present_count [OF run]
  show "length (filter (present w) file_list) \<le> success_count" by simp
next
  assume all: "\<forall>f\<in>set file_list. present w f"
  from download_loop_all_present [OF all, of srv 0 "[]"] run
  show "success_count = length file_list" "failed_files = []" "requests w' = requests w"
       "files w' = files w" "opened w' = opened w"
    by auto
next
  fix srv2 :: server and w2 :: world
  assume ok: "failed_files = []" and same: "files w2 = files w'"
  from download_loop_failed [OF run] ok
  have ex: "\<forall>n. JStr n \<in> set file_list \<longrightarrow> path_exists w' (join_path models_dir n)"
    by auto
  from download_loop_strings [OF run] have "\<forall>f\<in>set file_list. \<exists>name. f = JStr name" .
  with ex same have "\<forall>f\<in>set file_list. present w2 f"
    by (auto simp: path_exists_def)
  from download_loop_all_present [OF this, of srv2 0 "[]"]
  show "\<exists>w3. download_loop srv2 file_list 0 [] w2 = (Inr (length file_list, []), w3)
           \<and> requests w3 = requests w2 \<and> files w3 = files w2 \<and> opened w3 = opened w2"
    by auto
qed

theorem existing_files_are_skipped_witness:
  "JStr ''a.json'' \<in> set demo_files
   \<and> path_exists a_present_world (join_path models_dir ''a.json'')
   \<and> fst (download_loop good_server demo_files 0 [] a_present_world) = Inr (2, [])
   \<and> files (snd (download_loop good_server demo_files 0 [] a_present_world)) a_path = Some [7]
   \<and> map req_url (requests (snd (download_loop good_server demo_files 0 [] a_present_world)))
       = [DOWNLOAD_URL @ ''b.bin'']
   \<and> (\<exists>w3. download_loop good_server demo_files 0 []
               (snd (download_loop good_server demo_files 0 [] a_present_world))
             = (Inr (2, []), w3)
          \<and> requests w3 = requests (snd (download_loop good_server demo_files 0 [] a_present_world)))"
proof -
  let ?w' = "snd (download_loop good_server demo_files 0 [] a_present_world)"
  have run: "download_loop good_server demo_files 0 [] a_present_world = (Inr (2, []), ?w')"
    by (simp add: prod_eq_iff demo_files_def a_present_world_def a_path_def
                  program_defs scenario_defs range3)
  have h1: "JStr ''a.json'' \<in> set demo_files"
    by (simp add: demo_files_def)
  have h2: "path_exists a_present_world (join_path models_dir ''a.json'')"
    by (simp add: a_present_world_def a_path_def path_exists_def join_path_def models_dir_def)
  have e: "requests a_present_world = []" "files a_present_world a_path = Some [7]"
          "join_path models_dir ''a.json'' = a_path" "length demo_files = 2"
    by (simp_all add: a_present_world_def empty_world_def a_path_def join_path_def
                      models_dir_def demo_files_def)
  note skipped = existing_files_are_skipped [OF run]
  from skipped h1 h2
  have a: "files ?w' (join_path models_dir ''a.json'')
             = files a_present_world (join_path models_dir ''a.json'')"
    by blast
  from skipped
  have "\<exists>w3. download_loop good_server demo_files 0 [] ?w' = (Inr (length demo_files, []), w3)
          \<and> requests w3 = requests ?w' \<and> files w3 = files ?w' \<and> opened w3 = opened ?w'"
    by blast
  then have b: "\<exists>w3. download_loop good_server demo_files 0 [] ?w' = (Inr (2, []), w3)
          \<and> requests w3 = requests ?w'"
    using e(4) by auto
  from run have f: "fst (download_loop good_server demo_files 0 [] a_present_world) = Inr (2, [])"
    by (metis fst_conv)
  have g: "map req_url (requests ?w') = [DOWNLOAD_URL @ ''b.bin'']"
    by (simp add: demo_files_def a_present_world_def a_path_def program_defs scenario_defs range3)
  from a b h1 h2 e f g show ?thesis
    by simp
qed

subsection \<open>The file list\<close>

lemma listed_paths_simps:
  "listed_paths [] = []"
  "listed_paths (JObj obj # rest) =
     (case map_of obj ''Path'' of None \<Rightarrow> listed_paths rest | Some v \<Rightarrow> v # listed_paths rest)"
  "listed_paths (JArr xs # rest) = listed_paths rest"
  "listed_paths (JStr s # rest) = listed_paths rest"
  "listed_paths (JNum n # rest) = listed_paths rest"
  "listed_paths (JBool b # rest) = listed_paths rest"
  "listed_paths (JNull # rest) = listed_paths rest"
  by (simp_all add: listed_paths_def split: option.splits)

lemma map_of_None_iff_notin: "(map_of kvs k = None) = (k \<notin> set (map fst kvs))"
  by (simp add: map_of_eq_None_iff)

lemma path_items_listed:
  "path_items items = Inr ps \<Longrightarrow> ps = listed_paths items"
proof (induction items arbitrary: ps)
  case Nil
  then show ?case by (simp add: listed_paths_simps)
next
  case (Cons item rest)
  show ?case
  proof (cases item)
    case (JObj obj)
    show ?thesis
    proof (cases "map_of obj ''Path''")
      case None
      then have "''Path'' \<notin> set (map fst obj)"
        by (simp add: map_of_None_iff_notin)
      with Cons JObj None show ?thesis
        by (simp add: listed_paths_simps)
    next
      case (Some v)
      then have "''Path'' \<in> set (map fst obj)"
        using map_of_None_iff_notin [of obj "''Path''"] by simp
      with Cons JObj Some show ?thesis
        by (auto simp: listed_paths_simps split: sum.splits)
    qed
  next
    case (JArr xs)
    with Cons show ?thesis
      by (auto simp: listed_paths_simps split: if_splits)
  next
    case (JStr s)
    with Cons show ?thesis
      by (auto simp: listed_paths_simps split: if_splits)
  qed (use Cons.prems in simp_all)
qed

lemma listed_paths_from_items:
  "e \<in> set (listed_paths items) \<Longrightarrow>
     \<exists>obj. JObj obj \<in> set items \<and> map_of obj ''Path'' = Some e"
  by (auto simp: listed_paths_def List.map_filter_def split: json.splits)

lemma remote_listing_Some:
  "remote_listing response = Inr (Some l) \<Longrightarrow>
     \<exists>obj items. json_body response = Some (JObj obj)
        \<and> map_of obj ''Data'' = Some (JArr items) \<and> l = listed_paths items"
proof -
  assume a: "remote_listing response = Inr (Some l)"
  then obtain data where d: "json_body response = Some data"
    by (auto simp: remote_listing_def split: option.splits)
  show ?thesis
  proof (cases data)
    case (JObj obj)
    with a d show ?thesis
      by (auto simp: remote_listing_def split: option.splits if_splits json.splits sum.splits
               dest: path_items_listed)
  qed (use a d in \<open>auto simp: remote_listing_def split: if_splits\<close>)
qed

lemma py_in_error: "py_in k x = Inl e \<Longrightarrow> e = TypeError"
  by (cases x) simp_all

lemma py_getitem_error: "py_getitem x k = Inl e \<Longrightarrow> e = TypeError \<or> e = KeyError"
  by (cases x) (simp_all split: option.splits)

lemma path_items_error: "path_items items = Inl e \<Longrightarrow> e = TypeError \<or> e = KeyError"
proof (induction items)
  case Nil
  then show ?case by simp
next
  case (Cons item rest)
  then show ?case
    by (auto split: sum.splits if_splits dest: py_in_error py_getitem_error)
qed

lemma remote_listing_error: "remote_listing response = Inl e \<Longrightarrow> e \<noteq> KeyboardInterrupt"
  by (auto simp: remote_listing_def split: option.splits sum.splits if_splits json.splits
           dest: py_in_error py_getitem_error path_items_error)

lemma length_REQUIRED_FILES: "length REQUIRED_FILES = 10"
  by (simp add: REQUIRED_FILES_def)

lemma path_items_objects:
  "\<forall>item\<in>set items. \<exists>kv. item = JObj kv \<Longrightarrow> path_items items = Inr (listed_paths items)"
proof (induction items)
  case Nil
  then show ?case by (simp add: listed_paths_simps)
next
  case (Cons item rest)
  then obtain kv where kv: "item = JObj kv" by auto
  from Cons have rest: "path_items rest = Inr (listed_paths rest)" by simp
  show ?case
  proof (cases "map_of kv ''Path''")
    case None
    then have "''Path'' \<notin> set (map fst kv)"
      by (simp add: map_of_None_iff_notin)
    with kv None rest show ?thesis
      by (simp add: listed_paths_simps)
  next
    case (Some v)
    then have "''Path'' \<in> set (map fst kv)"
      using map_of_None_iff_notin [of kv "''Path''"] by simp
    with kv Some rest show ?thesis
      by (simp add: listed_paths_simps)
  qed
qed

lemma remote_listing_objects:
  assumes "json_body response = Some (JObj obj)"
      and "map_of obj ''Data'' = Some (JArr items)"
      and "\<forall>item\<in>set items. \<exists>kv. item = JObj kv"
  shows "remote_listing response = Inr (Some (listed_paths items))"
proof -
  from assms(2) have "''Data'' \<in> set (map fst obj)"
    using map_of_None_iff_notin [of obj "''Data''"] by simp
  with assms(1,2) path_items_objects [OF assms(3)] show ?thesis
    by (simp add: remote_listing_def)
qed

lemma remote_listing_unparsed:
  "json_body response = None \<Longrightarrow> remote_listing response = Inl JSONDecodeError"
  by (simp add: remote_listing_def)

lemma get_file_list_world:
  "get_file_list srv w = (r, w') \<Longrightarrow>
     requests w' = requests w @ [\<lparr>req_url = MODELSCOPE_API, req_range = None\<rparr>]
   \<and> files w' = files w"
  by (auto simp: get_file_list_def get_file_list_try_def requests_get_def Let_def say_def
           split: prod.splits sum.splits option.splits if_splits reply.splits)

lemma get_file_list_value:
  assumes "srv (length (requests w)) \<lparr>req_url = MODELSCOPE_API, req_range = None\<rparr> = rp"
  shows "fst (get_file_list srv w) =
           (case rp of
              Interrupt \<Rightarrow> Inl KeyboardInterrupt
            | ConnectionError \<Rightarrow> Inr REQUIRED_FILES
            | Reply response \<Rightarrow>
                if status_code response = 200
                then (case remote_listing response of
                        Inr (Some l) \<Rightarrow> Inr l
                      | _ \<Rightarrow> Inr REQUIRED_FILES)
                else Inr REQUIRED_FILES)"
proof (cases rp)
  case (Reply response)
  show ?thesis
  proof (cases "remote_listing response")
    case (Inl e)
    from Inl have "e \<noteq> KeyboardInterrupt" by (rule remote_listing_error)
    with assms Reply Inl show ?thesis
      by (simp add: get_file_list_def get_file_list_try_def requests_get_def Let_def
                    is_Exception_def)
  next
    case (Inr r)
    with assms Reply show ?thesis
      by (cases r) (simp_all add: get_file_list_def get_file_list_try_def requests_get_def Let_def)
  qed
qed (use assms in \<open>simp_all add: get_file_list_def get_file_list_try_def requests_get_def
                      Let_def is_Exception_def\<close>)

text \<open>An operator interrupt is not one of the failure paths of \<open>get_file_list\<close>: its
  \<^verbatim>\<open>except Exception\<close> clause lets KeyboardInterrupt through to the entry point, which is
  where every component of the script surfaces it.\<close>

lemma get_file_list_interrupt:
  "fst (get_file_list interrupting_server empty_world) = Inl KeyboardInterrupt"
  by (simp add: program_defs scenario_defs)

text \<open>
  Claim C4. On every failure path (network error, status other than 200, a body that does
  not parse, a body of the wrong shape or type), as on success, \<open>get_file_list\<close> returns a
  list and raises nothing; only the operator's interrupt of the listing request passes
  through it. It issues the one listing request and changes no file. The list returned is
  all-or-nothing: either it is the default list of 10 file names, or the reply had status
  200, its body parsed as an object whose \<open>Data\<close> field is a list, and the result is exactly
  the Path fields of the objects of that list, in order, so that every entry returned comes
  from a Path field of the remote listing. Which of the two is decided by the reply: a
  status-200 object whose \<open>Data\<close> is a list of objects gives the remote paths; a network
  error, another status or an unparsable body gives the default list.
\<close>

theorem get_file_list_all_or_nothing:
  assumes "srv (length (requests w)) \<lparr>req_url = MODELSCOPE_API, req_range = None\<rparr> \<noteq> Interrupt"
  shows "\<exists>l w'. get_file_list srv w = (Inr l, w')
          \<and> requests w' = requests w @ [\<lparr>req_url = MODELSCOPE_API, req_range = None\<rparr>]
          \<and> files w' = files w
          \<and> (l = REQUIRED_FILES \<and> length l = 10
             \<or> (\<exists>response obj items.
                   srv (length (requests w)) \<lparr>req_url = MODELSCOPE_API, req_range = None\<rparr>
                     = Reply response
                 \<and> status_code response = 200
                 \<and> json_body response = Some (JObj obj)
                 \<and> map_of obj ''Data'' = Some (JArr items)
                 \<and> l = listed_paths items
                 \<and> (\<forall>e\<in>set l. \<exists>item. JObj item \<in> set items \<and> map_of item ''Path'' = Some e)))
          \<and> (\<forall>response obj items.
                srv (length (requests w)) \<lparr>req_url = MODELSCOPE_API, req_range = None\<rparr>
                  = Reply response
              \<and> status_code response = 200
              \<and> json_body response = Some (JObj obj)
              \<and> map_of obj ''Data'' = Some (JArr items)
              \<and> (\<forall>item\<in>set items. \<exists>kv. item = JObj kv)
              \<longrightarrow> l = listed_paths items)
          \<and> (srv (length (requests w)) \<lparr>req_url = MODELSCOPE_API, req_range = None\<rparr>
                = ConnectionError
              \<or> (\<exists>response.
                    srv (length (requests w)) \<lparr>req_url = MODELSCOPE_API, req_range = None\<rparr>
                      = Reply response
                  \<and> (status_code response \<noteq> 200 \<or> json_body response = None))
              \<longrightarrow> l = REQUIRED_FILES)"
proof -
  let ?rp = "srv (length (requests w)) \<lparr>req_url = MODELSCOPE_API, req_range = None\<rparr>"
  let ?either = "\<lambda>l. l = REQUIRED_FILES \<and> length l = 10
             \<or> (\<exists>response obj items.
                   ?rp = Reply response
                 \<and> status_code response = 200
                 \<and> json_body response = Some (JObj obj)
                 \<and> map_of obj ''Data'' = Some (JArr items)
                 \<and> l = listed_paths items
                 \<and> (\<forall>e\<in>set l. \<exists>item. JObj item \<in> set items \<and> map_of item ''Path'' = Some e))"
  let ?remote = "\<lambda>l. \<forall>response obj items.
                ?rp = Reply response
              \<and> status_code response = 200
              \<and> json_body response = Some (JObj obj)
              \<and> map_of obj ''Data'' = Some (JArr items)
              \<and> (\<forall>item\<in>set items. \<exists>kv. item = JObj kv)
              \<longrightarrow> l = listed_paths items"
  let ?default = "\<lambda>l. ?rp = ConnectionError
              \<or> (\<exists>response. ?rp = Reply response
                  \<and> (status_code response \<noteq> 200 \<or> json_body response = None))
              \<longrightarrow> l = REQUIRED_FILES"
  obtain r w' where g: "get_file_list srv w = (r, w')"
    by (cases "get_file_list srv w")
  note wd = get_file_list_world [OF g]
  from g have fr: "fst (get_file_list srv w) = r" by simp
  note val = get_file_list_value [OF refl, of srv w, unfolded fr]
  have "\<exists>l. r = Inr l \<and> ?either l \<and> ?remote l \<and> ?default l"
  proof (cases ?rp)
    case Interrupt
    with assms show ?thesis by simp
  next
    case ConnectionError
    with val have "r = Inr REQUIRED_FILES" by simp
    with ConnectionError show ?thesis
      by (simp add: length_REQUIRED_FILES)
  next
    case (Reply response)
    show ?thesis
    proof (cases "status_code response = 200")
      case False
      with val Reply have "r = Inr REQUIRED_FILES" by simp
      with Reply False show ?thesis
        by (simp add: length_REQUIRED_FILES)
    next
      case True
      show ?thesis
      proof (cases "remote_listing response = Inr None \<or> (\<exists>e. remote_listing response = Inl e)")
        case True
        with val Reply \<open>status_code response = 200\<close> have r: "r = Inr REQUIRED_FILES"
          by auto
        have "?remote REQUIRED_FILES"
          using remote_listing_objects True Reply by fastforce
        with r show ?thesis
          by (simp add: length_REQUIRED_FILES)
      next
        case False
        then obtain l where l: "remote_listing response = Inr (Some l)"
          by (cases "remote_listing response") auto
        with val Reply True have r: "r = Inr l" by simp
        from l remote_listing_Some obtain obj items where
          sh: "json_body response = Some (JObj obj)"
              "map_of obj ''Data'' = Some (JArr items)" "l = listed_paths items"
          by blast
        have e: "?either l"
          using Reply True sh listed_paths_from_items by blast
        have m: "?remote l"
          using Reply sh by auto
        have d: "?default l"
          using Reply True sh(1) by simp
        from r e m d show ?thesis by blast
      qed
    qed
  qed
  with g wd show ?thesis by blast
qed

theorem get_file_list_all_or_nothing_witness:
  "good_server (length (requests empty_world)) \<lparr>req_url = MODELSCOPE_API, req_range = None\<rparr>
     \<noteq> Interrupt
   \<and> recovering_server (length (requests empty_world))
        \<lparr>req_url = MODELSCOPE_API, req_range = None\<rparr> \<noteq> Interrupt
   \<and> fst (get_file_list good_server empty_world) = Inr [JStr ''a.json'', JStr ''b.bin'']
   \<and> fst (get_file_list recovering_server empty_world) = Inr REQUIRED_FILES"
proof -
  let ?rq = "\<lparr>req_url = MODELSCOPE_API, req_range = None\<rparr>"
  let ?items = "[JObj [(''Path'', JStr ''a.json'')], JObj [(''Path'', JStr ''b.bin'')]]"
  let ?obj = "[(''Data'', JArr ?items)]"
  have h: "good_server (length (requests empty_world)) ?rq \<noteq> Interrupt"
    by (simp add: good_server_def)
  have h': "recovering_server (length (requests empty_world)) ?rq \<noteq> Interrupt"
    by (simp add: recovering_server_def empty_world_def)
  have good: "good_server (length (requests empty_world)) ?rq = Reply listing_response
            \<and> status_code listing_response = 200
            \<and> json_body listing_response = Some (JObj ?obj)
            \<and> map_of ?obj ''Data'' = Some (JArr ?items)
            \<and> (\<forall>item\<in>set ?items. \<exists>kv. item = JObj kv)"
    by (simp add: good_server_def listing_response_def demo_listing_def)
  from get_file_list_all_or_nothing [where srv = good_server and w = empty_world, OF h]
  obtain l w1 where l: "get_file_list good_server empty_world = (Inr l, w1)"
    and remote: "\<forall>response obj items.
                good_server (length (requests empty_world)) ?rq = Reply response
              \<and> status_code response = 200
              \<and> json_body response = Some (JObj obj)
              \<and> map_of obj ''Data'' = Some (JArr items)
              \<and> (\<forall>item\<in>set items. \<exists>kv. item = JObj kv)
              \<longrightarrow> l = listed_paths items"
    by blast
  from remote [rule_format, of listing_response ?obj ?items] good
  have "l = listed_paths ?items" by blast
  with l have a: "fst (get_file_list good_server empty_world) = Inr [JStr ''a.json'', JStr ''b.bin'']"
    by (simp add: listed_paths_simps)
  have bad: "\<exists>response. recovering_server (length (requests empty_world)) ?rq = Reply response
               \<and> (status_code response \<noteq> 200 \<or> json_body response = None)"
    by (simp add: recovering_server_def empty_world_def)
  from get_file_list_all_or_nothing [where srv = recovering_server and w = empty_world, OF h']
  obtain l2 w2 where l2: "get_file_list recovering_server empty_world = (Inr l2, w2)"
    and dflt: "recovering_server (length (requests empty_world)) ?rq = ConnectionError
              \<or> (\<exists>response. recovering_server (length (requests empty_world)) ?rq = Reply response
                  \<and> (status_code response \<noteq> 200 \<or> json_body response = None))
              \<longrightarrow> l2 = REQUIRED_FILES"
    by blast
  from dflt bad have "l2 = REQUIRED_FILES" by blast
  with l2 have b: "fst (get_file_list recovering_server empty_world) = Inr REQUIRED_FILES"
    by simp
  from h h' a b show ?thesis by blast
qed

subsection \<open>Exit codes\<close>









end
